theory Spec2Isabelle
  imports Main
begin

section \<open>The document tree handed back by the platform's XML parser\<close>

text \<open>
  \<^verbatim>\<open>App.tsx\<close> never inspects attributes, namespaces or processing instructions; it
  only asks for elements by tag name and for their \<^verbatim>\<open>textContent\<close>. A node is therefore
  an element with a tag name and children, a text node, or a comment node (which
  \<^verbatim>\<open>textContent\<close> of an element skips).
\<close>

datatype node =
    Element string "node list"
  | TextNode string
  | CommentNode string

type_synonym document = "node list"

fun childNodes :: "node \<Rightarrow> node list" where
  "childNodes (Element t cs) = cs"
| "childNodes (TextNode s) = []"
| "childNodes (CommentNode s) = []"

fun hasTagName :: "string \<Rightarrow> node \<Rightarrow> bool" where
  "hasTagName name (Element t cs) = (t = name)"
| "hasTagName name (TextNode s) = False"
| "hasTagName name (CommentNode s) = False"

text \<open>\<^verbatim>\<open>textContent\<close> of an element: the data of all text-node descendants, in tree order.\<close>

fun textContent :: "node \<Rightarrow> string" where
  "textContent (Element t cs) = concat (map textContent cs)"
| "textContent (TextNode s) = s"
| "textContent (CommentNode s) = []"

text \<open>The elements of a subtree in tree order (preorder), the root included.\<close>

fun subtree :: "node \<Rightarrow> node list" where
  "subtree (Element t cs) = Element t cs # concat (map subtree cs)"
| "subtree (TextNode s) = []"
| "subtree (CommentNode s) = []"

text \<open>
  \<^verbatim>\<open>document.getElementsByTagName(name)\<close>: every element of the document with that
  tag name, in tree order. \<^verbatim>\<open>element.getElementsByTagName(name)\<close>: the same over the
  descendants of the element, the element itself excluded.
\<close>

definition getElementsByTagName :: "document \<Rightarrow> string \<Rightarrow> node list" where
  "getElementsByTagName doc name = filter (hasTagName name) (concat (map subtree doc))"

definition elementGetElementsByTagName :: "node \<Rightarrow> string \<Rightarrow> node list" where
  "elementGetElementsByTagName e name = getElementsByTagName (childNodes e) name"

text \<open>The direct children of an element with a given tag name (not used by the code).\<close>

definition childrenByTagName :: "node \<Rightarrow> string \<Rightarrow> node list" where
  "childrenByTagName e name = filter (hasTagName name) (childNodes e)"

text \<open>\<^verbatim>\<open>collection[0]\<close>: \<^verbatim>\<open>undefined\<close> on an empty collection.\<close>

definition item0 :: "'a list \<Rightarrow> 'a option" where
  "item0 xs = (case xs of [] \<Rightarrow> None | x # _ \<Rightarrow> Some x)"

section \<open>The platform parser\<close>

text \<open>
  \<^verbatim>\<open>DOMParser\<close> belongs to the browser, not to the repository, so the XML parser is a
  parameter: a function from the text to one of three outcomes. On a well-formedness
  error \<^verbatim>\<open>parseFromString\<close> does not throw; it returns a document whose root element
  is named \<^verbatim>\<open>parsererror\<close>.
\<close>

datatype xml_outcome =
    NotWellFormed string
  | WellFormed document
  | Throws string

type_synonym xml_parser = "string \<Rightarrow> xml_outcome"

fun reportsError :: "xml_outcome \<Rightarrow> bool" where
  "reportsError (NotWellFormed msg) = True"
| "reportsError (WellFormed doc) = False"
| "reportsError (Throws msg) = False"

definition parseFromString :: "xml_parser \<Rightarrow> string \<Rightarrow> string + document" where
  "parseFromString xml xmlText =
     (case xml xmlText of
        NotWellFormed msg \<Rightarrow> Inr [Element ''parsererror'' [TextNode msg]]
      | WellFormed doc \<Rightarrow> Inr doc
      | Throws msg \<Rightarrow> Inl msg)"

text \<open>
  A stand-in for the platform parser on concrete runs: the listed texts are well formed
  and parse to the listed documents, every other text is rejected.
\<close>

definition platform :: "(string \<times> document) list \<Rightarrow> xml_parser" where
  "platform known xmlText =
     (case map_of known xmlText of
        Some doc \<Rightarrow> WellFormed doc
      | None \<Rightarrow> NotWellFormed ''syntax error'')"

section \<open>Field descriptors and application state\<close>

record field =
  Id_f :: string
  Label :: string
  Type :: string
  List_Item :: "string list"
  Visible :: bool
  Mandatory :: bool
  DisplayOnly :: bool
  Comment :: string

record app_state =
  xmlContent :: string
  formData :: "field list option"
  error :: "string option"
  formValues :: "string \<rightharpoonup> string"

section \<open>Plain objects used as dictionaries\<close>

text \<open>
  \<^verbatim>\<open>formValues\<close> and \<^verbatim>\<open>initialValues\<close> are object literals, so they inherit from
  \<^verbatim>\<open>Object.prototype\<close>. Reading a key that is not an own property finds the inherited
  member when the key is one of the names below, and \<^verbatim>\<open>undefined\<close> otherwise.
  Assigning to \<^verbatim>\<open>__proto__\<close> runs the inherited setter, which ignores a string, unless
  the object already has an own property of that name.
\<close>

definition object_prototype_members :: "string list" where
  "object_prototype_members =
     [''constructor'', ''__defineGetter__'', ''__defineSetter__'', ''hasOwnProperty'',
      ''__lookupGetter__'', ''__lookupSetter__'', ''isPrototypeOf'',
      ''propertyIsEnumerable'', ''toString'', ''valueOf'', ''__proto__'',
      ''toLocaleString'']"

datatype js_value = Undefined | Str string | Inherited string

definition get_property :: "(string \<rightharpoonup> string) \<Rightarrow> string \<Rightarrow> js_value" where
  "get_property obj k =
     (case obj k of
        Some v \<Rightarrow> Str v
      | None \<Rightarrow> if k \<in> set object_prototype_members then Inherited k else Undefined)"

definition set_property :: "(string \<rightharpoonup> string) \<Rightarrow> string \<Rightarrow> string \<Rightarrow> (string \<rightharpoonup> string)" where
  "set_property obj k v = (if k = ''__proto__'' \<and> obj k = None then obj else obj(k \<mapsto> v))"

section \<open>parseXml\<close>

text \<open>The inner loop over \<^verbatim>\<open>items\<close> (lines 72 to 77), pushing onto \<^verbatim>\<open>listItems\<close>.\<close>

fun pushItems :: "node list \<Rightarrow> string list \<Rightarrow> string list" where
  "pushItems [] listItems = listItems"
| "pushItems (item # items) listItems =
     (let itemText = textContent item
      in pushItems items (if itemText \<noteq> [] then listItems @ [itemText] else listItems))"

definition listItemsOf :: "node \<Rightarrow> string list" where
  "listItemsOf fld =
     (case item0 (elementGetElementsByTagName fld ''List'') of
        None \<Rightarrow> []
      | Some listElement \<Rightarrow>
          if length (elementGetElementsByTagName listElement ''Item'') > 0
          then pushItems (elementGetElementsByTagName listElement ''Item'') []
          else [])"

text \<open>\<^verbatim>\<open>field.getElementsByTagName(name)[0]?.textContent\<close>; \<open>None\<close> is \<^verbatim>\<open>undefined\<close>.\<close>

definition firstTextContent :: "node \<Rightarrow> string \<Rightarrow> string option" where
  "firstTextContent fld name =
     map_option textContent (item0 (elementGetElementsByTagName fld name))"

text \<open>\<^verbatim>\<open>... || ''\<close>: \<^verbatim>\<open>undefined\<close> and the empty string both give the empty string.\<close>

definition orEmpty :: "string option \<Rightarrow> string" where
  "orEmpty v = (case v of None \<Rightarrow> [] | Some s \<Rightarrow> s)"

definition parseField :: "node \<Rightarrow> field" where
  "parseField fld =
     \<lparr> Id_f = orEmpty (firstTextContent fld ''Id''),
       Label = orEmpty (firstTextContent fld ''Label''),
       Type = orEmpty (firstTextContent fld ''Type''),
       List_Item = listItemsOf fld,
       Visible = (firstTextContent fld ''Visible'' = Some ''true''),
       Mandatory = (firstTextContent fld ''Mandatory'' = Some ''true''),
       DisplayOnly = (firstTextContent fld ''DisplayOnly'' = Some ''true''),
       Comment = orEmpty (firstTextContent fld ''Comment'') \<rparr>"

text \<open>The outer loop over \<^verbatim>\<open>fieldElements\<close> (lines 65 to 98), pushing onto \<^verbatim>\<open>fields\<close>.\<close>

fun pushFields :: "node list \<Rightarrow> field list \<Rightarrow> field list" where
  "pushFields [] flds = flds"
| "pushFields (fld # rest) flds = pushFields rest (flds @ [parseField fld])"

text \<open>The \<^verbatim>\<open>forEach\<close> that seeds \<^verbatim>\<open>initialValues\<close> (lines 107 to 111).\<close>

fun seedValues :: "field list \<Rightarrow> (string \<rightharpoonup> string) \<Rightarrow> (string \<rightharpoonup> string)" where
  "seedValues [] initialValues = initialValues"
| "seedValues (f # fs) initialValues =
     seedValues fs
       (if Visible f \<and> \<not> DisplayOnly f then set_property initialValues (Id_f f) []
        else initialValues)"

datatype parse_error = Empty | Malformed | NoFields | NoValidFields | Unexpected string

definition message :: "parse_error \<Rightarrow> string" where
  "message e =
     (case e of
        Empty \<Rightarrow> ''Please upload an XML file first''
      | Malformed \<Rightarrow> ''Invalid XML file''
      | NoFields \<Rightarrow> ''No Field elements found in the XML''
      | NoValidFields \<Rightarrow> ''No valid fields found in the XML''
      | Unexpected msg \<Rightarrow> ''Error parsing XML: '' @ msg)"

text \<open>
  The decisions of \<^verbatim>\<open>parseXml\<close> up to its first state setter: which early return is
  taken, or the list \<^verbatim>\<open>fields\<close> on the path that reaches \<^verbatim>\<open>setFormData\<close>.
\<close>

definition parse :: "xml_parser \<Rightarrow> string \<Rightarrow> parse_error + field list" where
  "parse xml xmlText =
     (if xmlText = [] then Inl Empty
      else case parseFromString xml xmlText of
             Inl msg \<Rightarrow> Inl (Unexpected msg)
           | Inr xmlDoc \<Rightarrow>
               if length (getElementsByTagName xmlDoc ''parsererror'') > 0 then Inl Malformed
               else if length (getElementsByTagName xmlDoc ''Field'') = 0 then Inl NoFields
               else let flds = pushFields (getElementsByTagName xmlDoc ''Field'') []
                    in if length flds = 0 then Inl NoValidFields else Inr flds)"

definition parseXml :: "xml_parser \<Rightarrow> app_state \<Rightarrow> app_state" where
  "parseXml xml st =
     (case parse xml (xmlContent st) of
        Inl e \<Rightarrow> st\<lparr>error := Some (message e)\<rparr>
      | Inr flds \<Rightarrow>
          st\<lparr>formData := Some flds, formValues := seedValues flds Map.empty\<rparr>)"

section \<open>handleInputChange\<close>

text \<open>
  \<^verbatim>\<open>{...prev, [fieldId]: value}\<close>: a computed key always defines an own property, also
  for \<^verbatim>\<open>__proto__\<close>.
\<close>

definition handleInputChange :: "string \<Rightarrow> string \<Rightarrow> app_state \<Rightarrow> app_state" where
  "handleInputChange fieldId v st = st\<lparr>formValues := (formValues st)(fieldId \<mapsto> v)\<rparr>"

section \<open>handleFormSubmit\<close>

definition dquote :: char where
  "dquote = CHR 0x22"

definition newline :: char where
  "newline = CHR 0x0A"

text \<open>\<^verbatim>\<open>s.replace(/"/g, '""')\<close>\<close>

definition replaceQuotes :: "string \<Rightarrow> string" where
  "replaceQuotes s = concat (map (\<lambda>c. if c = dquote then [dquote, dquote] else [c]) s)"

definition quoted :: "string \<Rightarrow> string" where
  "quoted s = [dquote] @ s @ [dquote]"

fun join :: "string \<Rightarrow> string list \<Rightarrow> string" where
  "join sep [] = []"
| "join sep [x] = x"
| "join sep (x # y # ys) = x @ sep @ join sep (y # ys)"

definition toString :: "bool \<Rightarrow> string" where
  "toString b = (if b then ''true'' else ''false'')"

definition headers :: "string list" where
  "headers = [''Id'', ''Label'', ''Type'', ''Value'', ''Visible'', ''Mandatory'',
              ''DisplayOnly'', ''Comment'']"

datatype js_error = TypeError

text \<open>
  \<^verbatim>\<open>formValues[field.Id]?.replace(/"/g, '""') || ''\<close>: \<^verbatim>\<open>undefined\<close> short-circuits to
  the empty string, a string is escaped, and an inherited member of \<^verbatim>\<open>Object.prototype\<close>
  has no \<^verbatim>\<open>replace\<close> method, so calling it throws.
\<close>

definition valueText :: "(string \<rightharpoonup> string) \<Rightarrow> string \<Rightarrow> js_error + string" where
  "valueText values k =
     (case get_property values k of
        Undefined \<Rightarrow> Inr []
      | Str v \<Rightarrow> Inr (replaceQuotes v)
      | Inherited m \<Rightarrow> Inl TypeError)"

definition rowData :: "field \<Rightarrow> string \<Rightarrow> string list" where
  "rowData f v =
     [Id_f f, quoted (replaceQuotes (Label f)), Type f, quoted v,
      toString (Visible f), toString (Mandatory f), toString (DisplayOnly f),
      quoted (replaceQuotes (Comment f))]"

text \<open>The \<^verbatim>\<open>forEach\<close> over the fields (lines 134 to 148), appending to \<^verbatim>\<open>csvContent\<close>.\<close>

fun appendRows :: "(string \<rightharpoonup> string) \<Rightarrow> field list \<Rightarrow> string \<Rightarrow> js_error + string" where
  "appendRows values [] csvContent = Inr csvContent"
| "appendRows values (f # fs) csvContent =
     (if Visible f then
        (case valueText values (Id_f f) of
           Inl e \<Rightarrow> Inl e
         | Inr v \<Rightarrow> appendRows values fs (csvContent @ join '','' (rowData f v) @ [newline]))
      else appendRows values fs csvContent)"

definition serialize :: "field list \<Rightarrow> (string \<rightharpoonup> string) \<Rightarrow> js_error + string" where
  "serialize flds values = appendRows values flds (join '','' headers @ [newline])"

text \<open>\<open>None\<close>: the handler returned before building anything (\<^verbatim>\<open>formData\<close> is null).\<close>

definition handleFormSubmit :: "app_state \<Rightarrow> (js_error + string) option" where
  "handleFormSubmit st =
     (case formData st of
        None \<Rightarrow> None
      | Some flds \<Rightarrow> Some (serialize flds (formValues st)))"

text \<open>The initial component state, and the state after a file has been read.\<close>

definition initialState :: app_state where
  "initialState = \<lparr> xmlContent = [], formData = None, error = None, formValues = Map.empty \<rparr>"

definition handleFileUpload :: "string \<Rightarrow> app_state \<Rightarrow> app_state" where
  "handleFileUpload content st = st\<lparr>error := None, xmlContent := content\<rparr>"

section \<open>Notions the specification uses and the code does not\<close>

text \<open>
  Trimming as \<^verbatim>\<open>String.prototype.trim\<close> does it, and the extraction rule in the
  specification's words: the first direct child with the tag name, its text trimmed.
\<close>

definition isWhiteSpace :: "char \<Rightarrow> bool" where
  "isWhiteSpace c = (c \<in> set [CHR 0x09, CHR 0x0A, CHR 0x0B, CHR 0x0C, CHR 0x0D, CHR 0x20])"

definition trim :: "string \<Rightarrow> string" where
  "trim s = rev (dropWhile isWhiteSpace (rev (dropWhile isWhiteSpace s)))"

definition firstChildText :: "node \<Rightarrow> string \<Rightarrow> string option" where
  "firstChildText fld name = map_option textContent (item0 (childrenByTagName fld name))"

text \<open>
  What the code extracts instead: the first element with the tag name among the
  descendants of the Field element, in document order, and its text as it stands.
\<close>

definition firstDescendant :: "node \<Rightarrow> string \<Rightarrow> node option" where
  "firstDescendant fld name =
     (case filter (hasTagName name) (concat (map subtree (childNodes fld))) of
        [] \<Rightarrow> None
      | e # _ \<Rightarrow> Some e)"

definition firstDescendantText :: "node \<Rightarrow> string \<Rightarrow> string" where
  "firstDescendantText fld name =
     (case firstDescendant fld name of None \<Rightarrow> [] | Some e \<Rightarrow> textContent e)"

text \<open>The number of newline-terminated rows of a CSV text.\<close>

definition rowCount :: "string \<Rightarrow> nat" where
  "rowCount csv = length (filter (\<lambda>c. c = newline) csv)"

text \<open>The data row of a field whose value cell is the given text.\<close>

definition dataRow :: "field \<Rightarrow> string \<Rightarrow> string" where
  "dataRow f v = join '','' (rowData f v)"

section \<open>Example documents\<close>

definition scenarioA_xml :: string where
  "scenarioA_xml = ''<Form><Field><Id>f1</Id><Type>Text</Type><Visible>true</Visible><Mandatory>true</Mandatory></Field></Form>''"

definition scenarioA_doc :: document where
  "scenarioA_doc =
     [Element ''Form''
        [Element ''Field''
           [Element ''Id'' [TextNode ''f1''], Element ''Type'' [TextNode ''Text''],
            Element ''Visible'' [TextNode ''true''],
            Element ''Mandatory'' [TextNode ''true'']]]]"

definition items_xml :: string where
  "items_xml = ''<Form><Field><Id>c</Id><List><Item></Item><Item>A</Item></List></Field><Field><Id>d</Id></Field></Form>''"

definition items_doc :: document where
  "items_doc =
     [Element ''Form''
        [Element ''Field''
           [Element ''Id'' [TextNode ''c''],
            Element ''List'' [Element ''Item'' [], Element ''Item'' [TextNode ''A'']]],
         Element ''Field'' [Element ''Id'' [TextNode ''d'']]]]"

definition parsererror_xml :: string where
  "parsererror_xml = ''<Form><parsererror/><Field><Id>f1</Id><Visible>true</Visible></Field></Form>''"

definition parsererror_doc :: document where
  "parsererror_doc =
     [Element ''Form''
        [Element ''parsererror'' [],
         Element ''Field''
           [Element ''Id'' [TextNode ''f1''], Element ''Visible'' [TextNode ''true'']]]]"

definition untrimmed_xml :: string where
  "untrimmed_xml = ''<Form><Field><Id> f1 </Id></Field></Form>''"

definition untrimmed_field :: node where
  "untrimmed_field = Element ''Field'' [Element ''Id'' [TextNode '' f1 '']]"

definition untrimmed_doc :: document where
  "untrimmed_doc = [Element ''Form'' [untrimmed_field]]"

definition nested_xml :: string where
  "nested_xml = ''<Form><Field><List><Visible>true</Visible></List></Field></Form>''"

definition nested_field :: node where
  "nested_field = Element ''Field'' [Element ''List'' [Element ''Visible'' [TextNode ''true'']]]"

definition nested_doc :: document where
  "nested_doc = [Element ''Form'' [nested_field]]"

definition capital_xml :: string where
  "capital_xml = ''<Form><Field><Visible>True</Visible><Mandatory>true</Mandatory></Field></Form>''"

definition capital_doc :: document where
  "capital_doc =
     [Element ''Form''
        [Element ''Field''
           [Element ''Visible'' [TextNode ''True''],
            Element ''Mandatory'' [TextNode ''true'']]]]"

definition textlist_xml :: string where
  "textlist_xml = ''<Form><Field><Type>Text</Type><List><Item>A</Item></List></Field></Form>''"

definition textlist_doc :: document where
  "textlist_doc =
     [Element ''Form''
        [Element ''Field''
           [Element ''Type'' [TextNode ''Text''],
            Element ''List'' [Element ''Item'' [TextNode ''A'']]]]]"

definition nofields_xml :: string where
  "nofields_xml = ''<Form><Other/></Form>''"

definition nofields_doc :: document where
  "nofields_doc = [Element ''Form'' [Element ''Other'' []]]"

definition newline_xml :: string where
  "newline_xml = ''<Form><Field><Id>a\<newline>b</Id><Visible>true</Visible></Field></Form>''"

definition newline_doc :: document where
  "newline_doc =
     [Element ''Form''
        [Element ''Field''
           [Element ''Id'' [TextNode ''a\<newline>b''], Element ''Visible'' [TextNode ''true'']]]]"

definition newline_field :: field where
  "newline_field =
     \<lparr> Id_f = ''a\<newline>b'', Label = [], Type = [], List_Item = [], Visible = True,
       Mandatory = False, DisplayOnly = False, Comment = [] \<rparr>"

definition constructor_xml :: string where
  "constructor_xml = ''<Form><Field><Id>constructor</Id><Visible>true</Visible><DisplayOnly>true</DisplayOnly></Field></Form>''"

definition constructor_doc :: document where
  "constructor_doc =
     [Element ''Form''
        [Element ''Field''
           [Element ''Id'' [TextNode ''constructor''], Element ''Visible'' [TextNode ''true''],
            Element ''DisplayOnly'' [TextNode ''true'']]]]"

definition constructor_field :: field where
  "constructor_field =
     \<lparr> Id_f = ''constructor'', Label = [], Type = [], List_Item = [], Visible = True,
       Mandatory = False, DisplayOnly = True, Comment = [] \<rparr>"

definition proto_xml :: string where
  "proto_xml = ''<Form><Field><Id>__proto__</Id><Visible>true</Visible></Field></Form>''"

definition proto_doc :: document where
  "proto_doc =
     [Element ''Form''
        [Element ''Field''
           [Element ''Id'' [TextNode ''__proto__''], Element ''Visible'' [TextNode ''true'']]]]"

definition proto_field :: field where
  "proto_field =
     \<lparr> Id_f = ''__proto__'', Label = [], Type = [], List_Item = [], Visible = True,
       Mandatory = False, DisplayOnly = False, Comment = [] \<rparr>"

definition scenarioA_field :: field where
  "scenarioA_field =
     \<lparr> Id_f = ''f1'', Label = [], Type = ''Text'', List_Item = [], Visible = True,
       Mandatory = True, DisplayOnly = False, Comment = [] \<rparr>"

section \<open>The loops as list functions\<close>

lemmas dom_defs = getElementsByTagName_def elementGetElementsByTagName_def item0_def

lemmas field_defs = parseField_def firstTextContent_def orEmpty_def listItemsOf_def

lemmas parse_defs = parse_def parseFromString_def platform_def

lemma pushItems_filter:
  "pushItems items acc = acc @ filter (\<lambda>s. s \<noteq> []) (map textContent items)"
  by (induction items arbitrary: acc) (simp_all add: Let_def)

lemma pushFields_map: "pushFields es acc = acc @ map parseField es"
  by (induction es arbitrary: acc) simp_all

lemma listItemsOf_eq:
  "listItemsOf fld =
     (case item0 (elementGetElementsByTagName fld ''List'') of
        None \<Rightarrow> []
      | Some listElement \<Rightarrow>
          filter (\<lambda>s. s \<noteq> [])
            (map textContent (elementGetElementsByTagName listElement ''Item'')))"
  by (simp add: listItemsOf_def pushItems_filter split: option.splits)

section \<open>The paths through parseXml\<close>

lemma parseFromString_clean:
  assumes "parseFromString xml xmlText = Inr doc"
    and "getElementsByTagName doc ''parsererror'' = []"
  shows "xml xmlText = WellFormed doc"
  using assms
  by (cases "xml xmlText") (auto simp add: parseFromString_def getElementsByTagName_def)

lemma parse_success:
  assumes "parse xml xmlText = Inr flds"
  shows "\<exists>doc. xml xmlText = WellFormed doc \<and> xmlText \<noteq> []
           \<and> getElementsByTagName doc ''parsererror'' = []
           \<and> getElementsByTagName doc ''Field'' \<noteq> []
           \<and> flds = map parseField (getElementsByTagName doc ''Field'')"
proof (cases "parseFromString xml xmlText")
  case (Inl msg)
  with assms show ?thesis by (simp add: parse_def split: if_splits)
next
  case (Inr doc)
  with assms have clean: "getElementsByTagName doc ''parsererror'' = []"
    and some: "getElementsByTagName doc ''Field'' \<noteq> []"
    and res: "flds = map parseField (getElementsByTagName doc ''Field'')"
    and ne: "xmlText \<noteq> []"
    by (simp_all add: parse_def Let_def pushFields_map split: if_splits)
  from Inr clean have "xml xmlText = WellFormed doc" by (rule parseFromString_clean)
  with clean some res ne show ?thesis by blast
qed

lemma parse_fields_of:
  assumes "parse xml xmlText = Inr flds" and "xml xmlText = WellFormed doc"
  shows "flds = map parseField (getElementsByTagName doc ''Field'')"
  using parse_success [OF assms(1)] assms(2) by auto

lemma parse_wellformed:
  assumes "xmlText \<noteq> []" and "xml xmlText = WellFormed doc"
    and "getElementsByTagName doc ''parsererror'' = []"
    and "getElementsByTagName doc ''Field'' \<noteq> []"
  shows "parse xml xmlText = Inr (map parseField (getElementsByTagName doc ''Field''))"
  using assms by (simp add: parse_def parseFromString_def Let_def pushFields_map)

lemma parse_items_xml:
  "parse (platform [(items_xml, items_doc)]) items_xml =
     Inr [\<lparr>Id_f = ''c'', Label = [], Type = [], List_Item = [''A''], Visible = False,
            Mandatory = False, DisplayOnly = False, Comment = []\<rparr>,
          \<lparr>Id_f = ''d'', Label = [], Type = [], List_Item = [], Visible = False,
            Mandatory = False, DisplayOnly = False, Comment = []\<rparr>]"
  by (simp add: parse_defs dom_defs field_defs items_doc_def items_xml_def)

section \<open>Properties of parseXml\<close>

text \<open>
  C9. For every Field element of a successfully parsed document, the list items of its
  descriptor are the non-empty text contents of the Item elements below the Field's
  first List element, in document order; an Item with empty text is skipped, and a Field
  without a List element has no list items.
\<close>

theorem listItems_of_parsed_fields:
  assumes "parse xml xmlText = Inr flds" and "xml xmlText = WellFormed doc"
  shows "map List_Item flds =
           map (\<lambda>fld. case item0 (elementGetElementsByTagName fld ''List'') of
                        None \<Rightarrow> []
                      | Some listElement \<Rightarrow>
                          filter (\<lambda>s. s \<noteq> [])
                            (map textContent (elementGetElementsByTagName listElement ''Item'')))
               (getElementsByTagName doc ''Field'')"
proof -
  have "flds = map parseField (getElementsByTagName doc ''Field'')"
    using assms by (rule parse_fields_of)
  then show ?thesis by (simp add: parseField_def listItemsOf_eq)
qed

theorem listItems_of_parsed_fields_witness:
  "platform [(items_xml, items_doc)] items_xml = WellFormed items_doc
   \<and> map List_Item (projr (parse (platform [(items_xml, items_doc)]) items_xml))
       = [[''A''], []]
   \<and> map (\<lambda>fld. case item0 (elementGetElementsByTagName fld ''List'') of
                  None \<Rightarrow> []
                | Some listElement \<Rightarrow>
                    filter (\<lambda>s. s \<noteq> [])
                      (map textContent (elementGetElementsByTagName listElement ''Item'')))
         (getElementsByTagName items_doc ''Field'') = [[''A''], []]"
proof -
  have wf: "platform [(items_xml, items_doc)] items_xml = WellFormed items_doc"
    by (simp add: platform_def)
  have parsed: "map List_Item (projr (parse (platform [(items_xml, items_doc)]) items_xml))
       = [[''A''], []]"
    by (simp add: parse_items_xml)
  from listItems_of_parsed_fields [OF parse_items_xml wf] parsed
  have "map (\<lambda>fld. case item0 (elementGetElementsByTagName fld ''List'') of
                  None \<Rightarrow> []
                | Some listElement \<Rightarrow>
                    filter (\<lambda>s. s \<noteq> [])
                      (map textContent (elementGetElementsByTagName listElement ''Item'')))
         (getElementsByTagName items_doc ''Field'') = [[''A''], []]"
    by simp
  with wf parsed show ?thesis by blast
qed

text \<open>
  C7. When parseXml takes any of its failing paths (no text, a parsererror element, no
  Field element, or an exception caught at the top level), it only records the message:
  the form model, the value map and the uploaded text stay as they were.
\<close>

theorem failed_parse_keeps_form:
  assumes "parse xml (xmlContent st) = Inl e"
  shows "parseXml xml st = st\<lparr>error := Some (message e)\<rparr>
         \<and> formData (parseXml xml st) = formData st
         \<and> formValues (parseXml xml st) = formValues st"
  using assms by (simp add: parseXml_def)

theorem failed_parse_keeps_form_witness:
  "formData (parseXml (platform [(scenarioA_xml, scenarioA_doc)])
       (handleFileUpload ''<notxml''
          (parseXml (platform [(scenarioA_xml, scenarioA_doc)])
             (handleFileUpload scenarioA_xml initialState))))
     = Some [\<lparr>Id_f = ''f1'', Label = [], Type = ''Text'', List_Item = [], Visible = True,
               Mandatory = True, DisplayOnly = False, Comment = []\<rparr>]
   \<and> formValues (parseXml (platform [(scenarioA_xml, scenarioA_doc)])
       (handleFileUpload ''<notxml''
          (parseXml (platform [(scenarioA_xml, scenarioA_doc)])
             (handleFileUpload scenarioA_xml initialState)))) ''f1'' = Some []
   \<and> error (parseXml (platform [(scenarioA_xml, scenarioA_doc)])
       (handleFileUpload ''<notxml''
          (parseXml (platform [(scenarioA_xml, scenarioA_doc)])
             (handleFileUpload scenarioA_xml initialState)))) = Some ''Invalid XML file''"
proof -
  let ?xml = "platform [(scenarioA_xml, scenarioA_doc)]"
  let ?st1 = "parseXml ?xml (handleFileUpload scenarioA_xml initialState)"
  let ?st2 = "handleFileUpload ''<notxml'' ?st1"
  have fails: "parse ?xml (xmlContent ?st2) = Inl Malformed"
    by (simp add: handleFileUpload_def parse_defs dom_defs scenarioA_xml_def)
  have before: "formData ?st1 = Some [\<lparr>Id_f = ''f1'', Label = [], Type = ''Text'',
        List_Item = [], Visible = True, Mandatory = True, DisplayOnly = False, Comment = []\<rparr>]
      \<and> formValues ?st1 ''f1'' = Some []"
    by (simp add: parseXml_def handleFileUpload_def initialState_def parse_defs dom_defs
        field_defs scenarioA_doc_def scenarioA_xml_def set_property_def)
  show ?thesis
    using failed_parse_keeps_form [OF fails] before
    by (simp add: handleFileUpload_def message_def)
qed

text \<open>
  C10. A well-formed document that contains an element named parsererror is rejected
  as malformed, because parseXml looks for parsererror elements in the parsed document;
  this happens for a well-formed document that contains Field elements.
\<close>

theorem parsererror_element_rejected:
  "(\<forall>xml xmlText doc. xmlText \<noteq> [] \<longrightarrow> xml xmlText = WellFormed doc
        \<longrightarrow> getElementsByTagName doc ''parsererror'' \<noteq> []
        \<longrightarrow> parse xml xmlText = Inl Malformed)
   \<and> platform [(parsererror_xml, parsererror_doc)] parsererror_xml = WellFormed parsererror_doc
   \<and> getElementsByTagName parsererror_doc ''Field'' \<noteq> []
   \<and> parse (platform [(parsererror_xml, parsererror_doc)]) parsererror_xml = Inl Malformed"
proof (intro conjI allI impI)
  fix xml :: xml_parser and xmlText doc
  assume "xmlText \<noteq> []" and "xml xmlText = WellFormed doc"
    and "getElementsByTagName doc ''parsererror'' \<noteq> []"
  then show "parse xml xmlText = Inl Malformed"
    by (simp add: parse_def parseFromString_def)
next
  show "platform [(parsererror_xml, parsererror_doc)] parsererror_xml = WellFormed parsererror_doc"
    by (simp add: platform_def)
next
  show "getElementsByTagName parsererror_doc ''Field'' \<noteq> []"
    by (simp add: dom_defs parsererror_doc_def)
next
  show "parse (platform [(parsererror_xml, parsererror_doc)]) parsererror_xml = Inl Malformed"
    by (simp add: parse_defs dom_defs parsererror_doc_def parsererror_xml_def)
qed

theorem parsererror_element_rejected_witness:
  "parsererror_xml \<noteq> []
   \<and> getElementsByTagName parsererror_doc ''parsererror'' = [Element ''parsererror'' []]
   \<and> parse (platform [(parsererror_xml, parsererror_doc)]) parsererror_xml = Inl Malformed"
proof -
  have ne: "parsererror_xml \<noteq> []" by (simp add: parsererror_xml_def)
  have wf: "platform [(parsererror_xml, parsererror_doc)] parsererror_xml = WellFormed parsererror_doc"
    by (simp add: platform_def)
  have found: "getElementsByTagName parsererror_doc ''parsererror'' = [Element ''parsererror'' []]"
    by (simp add: dom_defs parsererror_doc_def)
  from parsererror_element_rejected
  have "parsererror_xml \<noteq> [] \<longrightarrow>
        platform [(parsererror_xml, parsererror_doc)] parsererror_xml = WellFormed parsererror_doc
        \<longrightarrow> getElementsByTagName parsererror_doc ''parsererror'' \<noteq> []
        \<longrightarrow> parse (platform [(parsererror_xml, parsererror_doc)]) parsererror_xml = Inl Malformed"
    by blast
  with ne wf found show ?thesis by simp
qed

lemma firstDescendant_eq:
  "firstDescendant fld name = item0 (elementGetElementsByTagName fld name)"
  by (simp add: firstDescendant_def dom_defs)

lemma orEmpty_firstTextContent:
  "orEmpty (firstTextContent fld name) = firstDescendantText fld name"
  by (simp add: orEmpty_def firstTextContent_def firstDescendantText_def firstDescendant_eq
      split: option.splits)

lemma firstTextContent_eq:
  "firstTextContent fld name = map_option textContent (firstDescendant fld name)"
  by (simp add: firstTextContent_def firstDescendant_eq)

text \<open>
  C4 (as amended). For every Field element of a successfully parsed document, Id, Label,
  Type and Comment are the text content, not trimmed, of the first element with that tag
  name among the descendants of the Field element in document order, and the empty
  string when there is no such element.
\<close>

theorem string_values_of_parsed_fields:
  assumes "parse xml xmlText = Inr flds" and "xml xmlText = WellFormed doc"
  shows "map Id_f flds =
           map (\<lambda>fld. firstDescendantText fld ''Id'') (getElementsByTagName doc ''Field'')
         \<and> map Label flds =
           map (\<lambda>fld. firstDescendantText fld ''Label'') (getElementsByTagName doc ''Field'')
         \<and> map Type flds =
           map (\<lambda>fld. firstDescendantText fld ''Type'') (getElementsByTagName doc ''Field'')
         \<and> map Comment flds =
           map (\<lambda>fld. firstDescendantText fld ''Comment'') (getElementsByTagName doc ''Field'')"
proof -
  have "flds = map parseField (getElementsByTagName doc ''Field'')"
    using assms by (rule parse_fields_of)
  then show ?thesis by (simp add: parseField_def orEmpty_firstTextContent)
qed

lemma parse_untrimmed_xml:
  "parse (platform [(untrimmed_xml, untrimmed_doc)]) untrimmed_xml =
     Inr [\<lparr>Id_f = '' f1 '', Label = [], Type = [], List_Item = [], Visible = False,
            Mandatory = False, DisplayOnly = False, Comment = []\<rparr>]"
  by (simp add: parse_defs dom_defs field_defs untrimmed_doc_def untrimmed_field_def
      untrimmed_xml_def)

theorem string_values_of_parsed_fields_witness:
  "platform [(untrimmed_xml, untrimmed_doc)] untrimmed_xml = WellFormed untrimmed_doc
   \<and> map (\<lambda>fld. firstDescendantText fld ''Id'') (getElementsByTagName untrimmed_doc ''Field'')
       = ['' f1 '']
   \<and> map (\<lambda>fld. firstDescendantText fld ''Label'') (getElementsByTagName untrimmed_doc ''Field'')
       = [[]]"
proof -
  have wf: "platform [(untrimmed_xml, untrimmed_doc)] untrimmed_xml = WellFormed untrimmed_doc"
    by (simp add: platform_def)
  show ?thesis
    using string_values_of_parsed_fields [OF parse_untrimmed_xml wf] wf
    by (simp add: parse_untrimmed_xml)
qed

theorem trimmed_text_counterexample:
  "getElementsByTagName untrimmed_doc ''Field'' = [untrimmed_field]
   \<and> orEmpty (map_option trim (firstChildText untrimmed_field ''Id'')) = ''f1''
   \<and> parse (platform [(untrimmed_xml, untrimmed_doc)]) untrimmed_xml =
       Inr [\<lparr>Id_f = '' f1 '', Label = [], Type = [], List_Item = [], Visible = False,
              Mandatory = False, DisplayOnly = False, Comment = []\<rparr>]"
  by (simp add: parse_defs dom_defs field_defs untrimmed_doc_def untrimmed_field_def
      untrimmed_xml_def firstChildText_def childrenByTagName_def trim_def isWhiteSpace_def)

text \<open>
  C5 (as amended). For every Field element of a successfully parsed document, each of
  visible, mandatory and displayOnly is true if and only if the first element with the
  corresponding tag name among the descendants of the Field element exists and has
  exactly the text content "true".
\<close>

theorem booleans_of_parsed_fields:
  assumes "parse xml xmlText = Inr flds" and "xml xmlText = WellFormed doc"
  shows "map Visible flds =
           map (\<lambda>fld. map_option textContent (firstDescendant fld ''Visible'') = Some ''true'')
             (getElementsByTagName doc ''Field'')
         \<and> map Mandatory flds =
           map (\<lambda>fld. map_option textContent (firstDescendant fld ''Mandatory'') = Some ''true'')
             (getElementsByTagName doc ''Field'')
         \<and> map DisplayOnly flds =
           map (\<lambda>fld. map_option textContent (firstDescendant fld ''DisplayOnly'') = Some ''true'')
             (getElementsByTagName doc ''Field'')"
proof -
  have "flds = map parseField (getElementsByTagName doc ''Field'')"
    using assms by (rule parse_fields_of)
  then show ?thesis by (simp add: parseField_def firstTextContent_eq)
qed

lemma parse_capital_xml:
  "parse (platform [(capital_xml, capital_doc)]) capital_xml =
     Inr [\<lparr>Id_f = [], Label = [], Type = [], List_Item = [], Visible = False,
            Mandatory = True, DisplayOnly = False, Comment = []\<rparr>]"
  by (simp add: parse_defs dom_defs field_defs capital_doc_def capital_xml_def)

theorem booleans_of_parsed_fields_witness:
  "platform [(capital_xml, capital_doc)] capital_xml = WellFormed capital_doc
   \<and> map Visible (projr (parse (platform [(capital_xml, capital_doc)]) capital_xml)) = [False]
   \<and> map (\<lambda>fld. map_option textContent (firstDescendant fld ''Visible'') = Some ''true'')
         (getElementsByTagName capital_doc ''Field'') = [False]
   \<and> map (\<lambda>fld. map_option textContent (firstDescendant fld ''Mandatory'') = Some ''true'')
         (getElementsByTagName capital_doc ''Field'') = [True]"
proof -
  have wf: "platform [(capital_xml, capital_doc)] capital_xml = WellFormed capital_doc"
    by (simp add: platform_def)
  have vis: "map (\<lambda>fld. map_option textContent (firstDescendant fld ''Visible'') = Some ''true'')
         (getElementsByTagName capital_doc ''Field'') = [False]"
    by (simp add: firstDescendant_def dom_defs capital_doc_def)
  have man: "map (\<lambda>fld. map_option textContent (firstDescendant fld ''Mandatory'') = Some ''true'')
         (getElementsByTagName capital_doc ''Field'') = [True]"
    by (simp add: firstDescendant_def dom_defs capital_doc_def)
  from booleans_of_parsed_fields [OF parse_capital_xml wf]
  have "map Visible (projr (parse (platform [(capital_xml, capital_doc)]) capital_xml)) = [False]"
    unfolding vis by (simp add: parse_capital_xml)
  with wf vis man show ?thesis by blast
qed

theorem child_boolean_counterexample:
  "getElementsByTagName nested_doc ''Field'' = [nested_field]
   \<and> childrenByTagName nested_field ''Visible'' = []
   \<and> parse (platform [(nested_xml, nested_doc)]) nested_xml =
       Inr [\<lparr>Id_f = [], Label = [], Type = [], List_Item = [], Visible = True,
              Mandatory = False, DisplayOnly = False, Comment = []\<rparr>]"
  by (simp add: parse_defs dom_defs field_defs nested_doc_def nested_field_def
      nested_xml_def childrenByTagName_def)

text \<open>
  C8 (as amended). In every form model produced by the parser, the list items of a
  descriptor are empty exactly when its Field element has no List element below it or
  the first such List has no Item element with non-empty text; the type of the field
  plays no part, so a field whose type is not "Dropdown" keeps the items of its List.
\<close>

theorem empty_listItems_of_parsed_fields:
  assumes "parse xml xmlText = Inr flds" and "xml xmlText = WellFormed doc"
  shows "map (\<lambda>f. List_Item f = []) flds =
           map (\<lambda>fld. case firstDescendant fld ''List'' of
                        None \<Rightarrow> True
                      | Some listElement \<Rightarrow>
                          (\<forall>item \<in> set (elementGetElementsByTagName listElement ''Item'').
                              textContent item = []))
             (getElementsByTagName doc ''Field'')"
proof -
  have flds: "flds = map parseField (getElementsByTagName doc ''Field'')"
    using assms by (rule parse_fields_of)
  have "(List_Item (parseField fld) = []) =
          (case firstDescendant fld ''List'' of
             None \<Rightarrow> True
           | Some listElement \<Rightarrow>
               (\<forall>item \<in> set (elementGetElementsByTagName listElement ''Item'').
                   textContent item = []))" for fld
    by (auto simp add: parseField_def listItemsOf_eq firstDescendant_eq filter_empty_conv
        split: option.splits)
  with flds show ?thesis by simp
qed

lemma parse_textlist_xml:
  "parse (platform [(textlist_xml, textlist_doc)]) textlist_xml =
       Inr [\<lparr>Id_f = [], Label = [], Type = ''Text'', List_Item = [''A''], Visible = False,
              Mandatory = False, DisplayOnly = False, Comment = []\<rparr>]"
  by (simp add: parse_defs dom_defs field_defs textlist_doc_def textlist_xml_def)

theorem empty_listItems_of_parsed_fields_witness:
  "platform [(textlist_xml, textlist_doc)] textlist_xml = WellFormed textlist_doc
   \<and> map (\<lambda>fld. case firstDescendant fld ''List'' of
                  None \<Rightarrow> True
                | Some listElement \<Rightarrow>
                    (\<forall>item \<in> set (elementGetElementsByTagName listElement ''Item'').
                        textContent item = []))
       (getElementsByTagName textlist_doc ''Field'') = [False]"
proof -
  have wf: "platform [(textlist_xml, textlist_doc)] textlist_xml = WellFormed textlist_doc"
    by (simp add: platform_def)
  show ?thesis
    using empty_listItems_of_parsed_fields [OF parse_textlist_xml wf] wf
    by (simp add: parse_textlist_xml)
qed

theorem non_dropdown_listItems_counterexample:
  "parse (platform [(textlist_xml, textlist_doc)]) textlist_xml =
       Inr [\<lparr>Id_f = [], Label = [], Type = ''Text'', List_Item = [''A''], Visible = False,
              Mandatory = False, DisplayOnly = False, Comment = []\<rparr>]
   \<and> ''Text'' \<noteq> ''Dropdown''"
  by (simp add: parse_defs dom_defs field_defs textlist_doc_def textlist_xml_def)

lemma parse_empty_iff: "parse xml xmlText = Inl Empty \<longleftrightarrow> xmlText = []"
  by (auto simp add: parse_def Let_def split: sum.splits)

lemma parse_malformed_iff:
  "parse xml xmlText = Inl Malformed \<longleftrightarrow>
     xmlText \<noteq> [] \<and>
     (reportsError (xml xmlText)
      \<or> (\<exists>doc. xml xmlText = WellFormed doc \<and> getElementsByTagName doc ''parsererror'' \<noteq> []))"
  by (cases "xml xmlText")
    (auto simp add: parse_def parseFromString_def Let_def getElementsByTagName_def)

lemma parse_nofields_iff:
  "parse xml xmlText = Inl NoFields \<longleftrightarrow>
     xmlText \<noteq> [] \<and>
     (\<exists>doc. xml xmlText = WellFormed doc \<and> getElementsByTagName doc ''parsererror'' = []
        \<and> getElementsByTagName doc ''Field'' = [])"
  by (cases "xml xmlText")
    (auto simp add: parse_def parseFromString_def Let_def getElementsByTagName_def)

lemma parse_unexpected_iff:
  "parse xml xmlText = Inl (Unexpected msg) \<longleftrightarrow> xmlText \<noteq> [] \<and> xml xmlText = Throws msg"
  by (cases "xml xmlText")
    (auto simp add: parse_def parseFromString_def Let_def getElementsByTagName_def)

lemma parse_never_NoValidFields: "parse xml xmlText \<noteq> Inl NoValidFields"
  by (cases "xml xmlText")
    (auto simp add: parse_def parseFromString_def Let_def pushFields_map)

lemma parse_Inr_iff:
  "parse xml xmlText = Inr flds \<longleftrightarrow>
     xmlText \<noteq> [] \<and>
     (\<exists>doc. xml xmlText = WellFormed doc \<and> getElementsByTagName doc ''parsererror'' = []
        \<and> getElementsByTagName doc ''Field'' \<noteq> []
        \<and> flds = map parseField (getElementsByTagName doc ''Field''))"
proof
  assume "parse xml xmlText = Inr flds"
  from parse_success [OF this] show "xmlText \<noteq> [] \<and>
     (\<exists>doc. xml xmlText = WellFormed doc \<and> getElementsByTagName doc ''parsererror'' = []
        \<and> getElementsByTagName doc ''Field'' \<noteq> []
        \<and> flds = map parseField (getElementsByTagName doc ''Field''))"
    by blast
next
  assume "xmlText \<noteq> [] \<and>
     (\<exists>doc. xml xmlText = WellFormed doc \<and> getElementsByTagName doc ''parsererror'' = []
        \<and> getElementsByTagName doc ''Field'' \<noteq> []
        \<and> flds = map parseField (getElementsByTagName doc ''Field''))"
  then show "parse xml xmlText = Inr flds"
    using parse_wellformed by blast
qed

text \<open>
  C1 (as amended). parse fails with Empty exactly on the empty text. On a non-empty text
  it fails with Malformed exactly when the document handed back by the XML parser
  contains an element named parsererror, which is so whenever the parser reports a
  well-formedness error and also for a well-formed document with such an element; it
  fails with NoFields exactly when that document has no parsererror element and no Field
  element; it reports the generic parsing error exactly when the parser throws; and
  otherwise it succeeds with one descriptor per Field element, in document order.
\<close>

theorem parse_outcomes:
  "(parse xml xmlText = Inl Empty \<longleftrightarrow> xmlText = [])
   \<and> (parse xml xmlText = Inl Malformed \<longleftrightarrow>
        xmlText \<noteq> [] \<and>
        (reportsError (xml xmlText)
         \<or> (\<exists>doc. xml xmlText = WellFormed doc
               \<and> getElementsByTagName doc ''parsererror'' \<noteq> [])))
   \<and> (parse xml xmlText = Inl NoFields \<longleftrightarrow>
        xmlText \<noteq> [] \<and>
        (\<exists>doc. xml xmlText = WellFormed doc \<and> getElementsByTagName doc ''parsererror'' = []
           \<and> getElementsByTagName doc ''Field'' = []))
   \<and> (parse xml xmlText = Inl (Unexpected msg) \<longleftrightarrow> xmlText \<noteq> [] \<and> xml xmlText = Throws msg)
   \<and> parse xml xmlText \<noteq> Inl NoValidFields
   \<and> (parse xml xmlText = Inr flds \<longleftrightarrow>
        xmlText \<noteq> [] \<and>
        (\<exists>doc. xml xmlText = WellFormed doc \<and> getElementsByTagName doc ''parsererror'' = []
           \<and> getElementsByTagName doc ''Field'' \<noteq> []
           \<and> flds = map parseField (getElementsByTagName doc ''Field'')))"
  using parse_empty_iff [of xml xmlText] parse_malformed_iff [of xml xmlText]
    parse_nofields_iff [of xml xmlText] parse_unexpected_iff [of xml xmlText msg]
    parse_never_NoValidFields [of xml xmlText] parse_Inr_iff [of xml xmlText flds]
  by blast

theorem parse_outcomes_witness:
  "parse (platform [(nofields_xml, nofields_doc)]) nofields_xml = Inl NoFields
   \<and> parse (platform [(nofields_xml, nofields_doc)]) ''<notxml'' = Inl Malformed
   \<and> parse (platform [(nofields_xml, nofields_doc)]) [] = Inl Empty"
proof -
  let ?xml = "platform [(nofields_xml, nofields_doc)]"
  have wf: "?xml nofields_xml = WellFormed nofields_doc"
    by (simp add: platform_def)
  have ne: "nofields_xml \<noteq> []" by (simp add: nofields_xml_def)
  have clean: "getElementsByTagName nofields_doc ''parsererror'' = []"
    by (simp add: dom_defs nofields_doc_def)
  have none: "getElementsByTagName nofields_doc ''Field'' = []"
    by (simp add: dom_defs nofields_doc_def)
  have bad: "reportsError (?xml ''<notxml'')"
    by (simp add: platform_def nofields_xml_def)
  have a: "parse ?xml nofields_xml = Inl NoFields"
    using parse_outcomes [of ?xml nofields_xml] wf ne clean none by blast
  have b: "parse ?xml ''<notxml'' = Inl Malformed"
    using parse_outcomes [of ?xml "''<notxml''"] bad by simp
  have c: "parse ?xml [] = Inl Empty"
    using parse_outcomes [of ?xml "[]"] by simp
  from a b c show ?thesis by blast
qed

theorem malformed_iff_counterexample:
  "platform [(parsererror_xml, parsererror_doc)] parsererror_xml = WellFormed parsererror_doc
   \<and> \<not> reportsError (platform [(parsererror_xml, parsererror_doc)] parsererror_xml)
   \<and> parse (platform [(parsererror_xml, parsererror_doc)]) parsererror_xml = Inl Malformed"
  by (simp add: parse_defs dom_defs parsererror_doc_def parsererror_xml_def)

lemmas csv_defs = serialize_def valueText_def get_property_def object_prototype_members_def
  rowData_def quoted_def replaceQuotes_def toString_def headers_def dquote_def newline_def

section \<open>Properties of handleFormSubmit\<close>

lemma appendRows_rows:
  assumes "\<forall>f \<in> set flds. Visible f \<longrightarrow> valueText values (Id_f f) = Inr (cell f)"
  shows "appendRows values flds csvContent =
           Inr (csvContent @ concat (map (\<lambda>f. dataRow f (cell f) @ [newline]) (filter Visible flds)))"
  using assms
  by (induction flds arbitrary: csvContent) (simp_all add: dataRow_def)

lemma appendRows_throws:
  assumes "f \<in> set flds" and "Visible f" and "valueText values (Id_f f) = Inl e"
  shows "\<exists>e'. appendRows values flds csvContent = Inl e'"
  using assms
  by (induction flds arbitrary: csvContent) (auto split: sum.splits)

lemma valueText_empty:
  assumes "\<forall>k v. values k = Some v \<longrightarrow> v = []"
    and "k \<in> dom values \<or> k \<notin> set object_prototype_members"
  shows "valueText values k = Inr []"
proof (cases "values k")
  case None
  with assms(2) have "k \<notin> set object_prototype_members" by auto
  with None show ?thesis by (simp add: valueText_def get_property_def)
next
  case (Some v)
  with assms(1) have "v = []" by blast
  with Some show ?thesis by (simp add: valueText_def get_property_def replaceQuotes_def)
qed

lemma serialize_empty_values:
  assumes "\<forall>k v. values k = Some v \<longrightarrow> v = []"
    and "\<forall>f \<in> set flds. Visible f \<longrightarrow>
           Id_f f \<in> dom values \<or> Id_f f \<notin> set object_prototype_members"
  shows "serialize flds values =
           Inr (concat (map (\<lambda>row. row @ [newline])
                  (join '','' headers # map (\<lambda>f. dataRow f []) (filter Visible flds))))"
proof -
  have "\<forall>f \<in> set flds. Visible f \<longrightarrow> valueText values (Id_f f) = Inr []"
    using assms valueText_empty by blast
  then have "appendRows values flds (join '','' headers @ [newline]) =
      Inr ((join '','' headers @ [newline])
           @ concat (map (\<lambda>f. dataRow f [] @ [newline]) (filter Visible flds)))"
    by (rule appendRows_rows)
  then show ?thesis by (simp add: serialize_def comp_def)
qed

lemma rowCount_append: "rowCount (xs @ ys) = rowCount xs + rowCount ys"
  by (simp add: rowCount_def)

lemma rowCount_Cons: "rowCount (c # cs) = (if c = newline then 1 else 0) + rowCount cs"
  by (simp add: rowCount_def)

lemma rowCount_free: "newline \<notin> set row \<Longrightarrow> rowCount row = 0"
  by (auto simp add: rowCount_def filter_empty_conv)

lemma rowCount_rows:
  assumes "\<forall>row \<in> set rows. newline \<notin> set row"
  shows "rowCount (concat (map (\<lambda>row. row @ [newline]) rows)) = length rows"
  using assms
proof (induction rows)
  case Nil
  show ?case by (simp add: rowCount_def)
next
  case (Cons row rows)
  then show ?case by (simp add: rowCount_append rowCount_Cons rowCount_free)
qed

lemma set_join: "set (join sep xs) \<subseteq> set sep \<union> \<Union> (set ` set xs)"
  by (induction sep xs rule: join.induct) auto

lemma set_replaceQuotes: "set (replaceQuotes s) \<subseteq> insert dquote (set s)"
  by (auto simp add: replaceQuotes_def split: if_splits)

lemma newline_not_dquote: "newline \<noteq> dquote"
  by (simp add: newline_def dquote_def)

lemma newline_toString: "newline \<notin> set (toString b)"
  by (simp add: toString_def newline_def)

lemma newline_quoted:
  "newline \<notin> set s \<Longrightarrow> newline \<notin> set (quoted (replaceQuotes s))"
  using set_replaceQuotes [of s] newline_not_dquote
  by (auto simp add: quoted_def)

lemma newline_dataRow_empty:
  assumes "newline \<notin> set (Id_f f)" and "newline \<notin> set (Label f)"
    and "newline \<notin> set (Type f)" and "newline \<notin> set (Comment f)"
  shows "newline \<notin> set (dataRow f [])"
proof -
  have cells: "\<forall>c \<in> set (rowData f []). newline \<notin> set c"
    using assms newline_quoted newline_toString newline_not_dquote
    by (simp add: rowData_def) (simp add: quoted_def)
  have "newline \<notin> set '',''" by (simp add: newline_def)
  with cells set_join [of "'',''" "rowData f []"] show ?thesis
    by (auto simp add: dataRow_def)
qed

lemma newline_header: "newline \<notin> set (join '','' headers)"
  by (simp add: headers_def newline_def)


lemma serialize_rows:
  assumes "\<forall>f \<in> set flds. Visible f \<longrightarrow>
             Id_f f \<in> dom values \<or> Id_f f \<notin> set object_prototype_members"
  shows "serialize flds values =
           Inr (join '','' headers @ [newline]
                @ concat (map (\<lambda>f. dataRow f (case values (Id_f f) of
                                                   None \<Rightarrow> []
                                                 | Some v \<Rightarrow> replaceQuotes v) @ [newline])
                            (filter Visible flds)))"
proof -
  have "\<forall>f \<in> set flds. Visible f \<longrightarrow>
          valueText values (Id_f f) =
            Inr (case values (Id_f f) of None \<Rightarrow> [] | Some v \<Rightarrow> replaceQuotes v)"
    using assms by (auto simp add: valueText_def get_property_def split: option.splits)
  from appendRows_rows [OF this] show ?thesis by (simp add: serialize_def)
qed

lemma seedValues_dom:
  assumes "m ''__proto__'' = None"
  shows "dom (seedValues flds m) =
           dom m \<union> {k. k \<noteq> ''__proto__'' \<and>
                         (\<exists>f \<in> set flds. Visible f \<and> \<not> DisplayOnly f \<and> Id_f f = k)}"
  using assms
proof (induction flds arbitrary: m)
  case Nil
  show ?case by simp
next
  case (Cons f flds)
  show ?case
  proof (cases "Visible f \<and> \<not> DisplayOnly f")
    case False
    with Cons show ?thesis by auto
  next
    case True
    have keep: "set_property m (Id_f f) [] ''__proto__'' = None"
      using Cons.prems by (simp add: set_property_def)
    have "dom (seedValues (f # flds) m) = dom (seedValues flds (set_property m (Id_f f) []))"
      using True by simp
    also have "\<dots> = dom (set_property m (Id_f f) []) \<union>
        {k. k \<noteq> ''__proto__'' \<and> (\<exists>g \<in> set flds. Visible g \<and> \<not> DisplayOnly g \<and> Id_f g = k)}"
      using keep by (rule Cons.IH)
    also have "dom (set_property m (Id_f f) []) =
        dom m \<union> {k. k \<noteq> ''__proto__'' \<and> k = Id_f f}"
      using Cons.prems by (auto simp add: set_property_def)
    finally show ?thesis using True by auto
  qed
qed

lemma set_property_values:
  assumes "\<forall>k v. m k = Some v \<longrightarrow> v = []"
  shows "\<forall>k v. set_property m key [] k = Some v \<longrightarrow> v = []"
  using assms by (simp add: set_property_def)

lemma seedValues_values:
  assumes "\<forall>k v. m k = Some v \<longrightarrow> v = []"
  shows "\<forall>k v. seedValues flds m k = Some v \<longrightarrow> v = []"
  using assms
proof (induction flds arbitrary: m)
  case Nil
  then show ?case by simp
next
  case (Cons f flds)
  show ?case
  proof (cases "Visible f \<and> \<not> DisplayOnly f")
    case True
    have "\<forall>k v. set_property m (Id_f f) [] k = Some v \<longrightarrow> v = []"
      using Cons.prems by (rule set_property_values)
    then have "\<forall>k v. seedValues flds (set_property m (Id_f f) []) k = Some v \<longrightarrow> v = []"
      by (rule Cons.IH)
    with True show ?thesis by simp
  next
    case False
    have "\<forall>k v. seedValues flds m k = Some v \<longrightarrow> v = []"
      using Cons.prems by (rule Cons.IH)
    with False show ?thesis by auto
  qed
qed

text \<open>
  Scenario A of the specification, run through the whole component: upload, generate,
  type "hello" into f1, submit.
\<close>

lemma scenarioA_export:
  "handleFormSubmit
     (handleInputChange ''f1'' ''hello''
        (parseXml (platform [(scenarioA_xml, scenarioA_doc)])
           (handleFileUpload scenarioA_xml initialState)))
   = Some (Inr (''Id,Label,Type,Value,Visible,Mandatory,DisplayOnly,Comment'' @ [newline]
                @ ''f1,'' @ [dquote, dquote] @ '',Text,'' @ [dquote] @ ''hello'' @ [dquote]
                @ '',true,true,false,'' @ [dquote, dquote] @ [newline]))"
proof -
  have "parse (platform [(scenarioA_xml, scenarioA_doc)]) scenarioA_xml = Inr [scenarioA_field]"
    by (simp add: parse_defs dom_defs field_defs scenarioA_doc_def scenarioA_xml_def
        scenarioA_field_def)
  then have "handleInputChange ''f1'' ''hello''
        (parseXml (platform [(scenarioA_xml, scenarioA_doc)])
           (handleFileUpload scenarioA_xml initialState))
      = \<lparr> xmlContent = scenarioA_xml, formData = Some [scenarioA_field], error = None,
          formValues = [''f1'' \<mapsto> ''hello''] \<rparr>"
    by (simp add: handleInputChange_def parseXml_def handleFileUpload_def initialState_def
        scenarioA_field_def set_property_def)
  then show ?thesis
    by (simp add: handleFormSubmit_def csv_defs scenarioA_field_def)
qed

text \<open>
  C2 (as amended). For every form model produced by a successful parse and every value
  map whose values are all empty, provided no visible field's id is read from
  Object.prototype: the header row has the eight columns Id, Label, Type, Value, Visible,
  Mandatory, DisplayOnly, Comment in this order, and the CSV is the header row followed
  by one data row per visible field, in order, each row ended by a line feed, so that
  the number of rows written is the number of visible fields plus one and invisible
  fields contribute none. When, in addition, no Id, Label, Type or Comment of a visible
  field contains a line feed, the text has exactly that many line feeds.
\<close>

theorem csv_rows_of_parsed_form:
  assumes "parse xml xmlText = Inr flds"
    and "\<forall>k v. values k = Some v \<longrightarrow> v = []"
    and "\<forall>f \<in> set flds. Visible f \<longrightarrow>
           Id_f f \<in> dom values \<or> Id_f f \<notin> set object_prototype_members"
  shows "headers = [''Id'', ''Label'', ''Type'', ''Value'', ''Visible'', ''Mandatory'',
                    ''DisplayOnly'', ''Comment'']
         \<and> length headers = 8
         \<and> serialize flds values =
             Inr (concat (map (\<lambda>row. row @ [newline])
                    (join '','' headers # map (\<lambda>f. dataRow f []) (filter Visible flds))))
         \<and> length (join '','' headers # map (\<lambda>f. dataRow f []) (filter Visible flds))
             = 1 + length (filter Visible flds)
         \<and> ((\<forall>f \<in> set flds. Visible f \<longrightarrow>
                 newline \<notin> set (Id_f f) \<union> set (Label f) \<union> set (Type f) \<union> set (Comment f))
              \<longrightarrow> (\<exists>csv. serialize flds values = Inr csv
                        \<and> rowCount csv = 1 + length (filter Visible flds)))"
proof (intro conjI impI)
  show "headers = [''Id'', ''Label'', ''Type'', ''Value'', ''Visible'', ''Mandatory'',
                    ''DisplayOnly'', ''Comment'']"
    by (simp add: headers_def)
  show "length headers = 8" by (simp add: headers_def)
  show rows: "serialize flds values =
             Inr (concat (map (\<lambda>row. row @ [newline])
                    (join '','' headers # map (\<lambda>f. dataRow f []) (filter Visible flds))))"
    using assms(2,3) by (rule serialize_empty_values)
  show "length (join '','' headers # map (\<lambda>f. dataRow f []) (filter Visible flds))
             = 1 + length (filter Visible flds)"
    by simp
  assume clean: "\<forall>f \<in> set flds. Visible f \<longrightarrow>
      newline \<notin> set (Id_f f) \<union> set (Label f) \<union> set (Type f) \<union> set (Comment f)"
  have "\<forall>row \<in> set (join '','' headers # map (\<lambda>f. dataRow f []) (filter Visible flds)).
          newline \<notin> set row"
    using clean newline_header newline_dataRow_empty by auto
  then have "rowCount (concat (map (\<lambda>row. row @ [newline])
                (join '','' headers # map (\<lambda>f. dataRow f []) (filter Visible flds))))
             = length (join '','' headers # map (\<lambda>f. dataRow f []) (filter Visible flds))"
    by (rule rowCount_rows)
  with rows show "\<exists>csv. serialize flds values = Inr csv
                        \<and> rowCount csv = 1 + length (filter Visible flds)"
    by simp
qed

lemma parse_scenarioA_xml:
  "parse (platform [(scenarioA_xml, scenarioA_doc)]) scenarioA_xml = Inr [scenarioA_field]"
  by (simp add: parse_defs dom_defs field_defs scenarioA_doc_def scenarioA_xml_def
      scenarioA_field_def)

theorem csv_rows_of_parsed_form_witness:
  "parse (platform [(scenarioA_xml, scenarioA_doc)]) scenarioA_xml = Inr [scenarioA_field]
   \<and> seedValues [scenarioA_field] Map.empty ''f1'' = Some []
   \<and> serialize [scenarioA_field] (seedValues [scenarioA_field] Map.empty) =
       Inr (join '','' headers @ [newline] @ dataRow scenarioA_field [] @ [newline])
   \<and> rowCount (join '','' headers @ [newline] @ dataRow scenarioA_field [] @ [newline]) = 2"
proof -
  let ?seeded = "seedValues [scenarioA_field] Map.empty"
  have seeded: "?seeded = [''f1'' \<mapsto> []]"
    by (simp add: scenarioA_field_def set_property_def)
  have empty: "\<forall>k v. ?seeded k = Some v \<longrightarrow> v = []"
    unfolding seeded by simp
  have own: "\<forall>f \<in> set [scenarioA_field]. Visible f \<longrightarrow>
           Id_f f \<in> dom ?seeded \<or> Id_f f \<notin> set object_prototype_members"
    unfolding seeded by (simp add: scenarioA_field_def)
  have clean: "\<forall>f \<in> set [scenarioA_field]. Visible f \<longrightarrow>
      newline \<notin> set (Id_f f) \<union> set (Label f) \<union> set (Type f) \<union> set (Comment f)"
    by (simp add: scenarioA_field_def newline_def)
  note inst = csv_rows_of_parsed_form [OF parse_scenarioA_xml empty own]
  from inst have rows: "serialize [scenarioA_field] ?seeded =
          Inr (join '','' headers @ [newline] @ dataRow scenarioA_field [] @ [newline])"
    by (simp add: scenarioA_field_def)
  from inst clean have "\<exists>csv. serialize [scenarioA_field] ?seeded = Inr csv
      \<and> rowCount csv = 1 + length (filter Visible [scenarioA_field])"
    by blast
  with rows
  have count: "rowCount (join '','' headers @ [newline] @ dataRow scenarioA_field [] @ [newline]) = 2"
    by (auto simp add: scenarioA_field_def)
  have "seedValues [scenarioA_field] Map.empty ''f1'' = Some []"
    unfolding seeded by simp
  with rows count parse_scenarioA_xml show ?thesis by blast
qed

lemma parse_newline_xml:
  "parse (platform [(newline_xml, newline_doc)]) newline_xml = Inr [newline_field]"
  by (simp add: parse_defs dom_defs field_defs newline_doc_def newline_xml_def newline_field_def)

theorem csv_row_count_counterexample:
  "length headers \<noteq> 7
   \<and> parse (platform [(newline_xml, newline_doc)]) newline_xml = Inr [newline_field]
   \<and> length (filter Visible [newline_field]) = 1
   \<and> seedValues [newline_field] Map.empty (Id_f newline_field) = Some []
   \<and> map_sum id rowCount (serialize [newline_field] (seedValues [newline_field] Map.empty))
       = Inr 3"
proof -
  have "map_sum id rowCount (serialize [newline_field] (seedValues [newline_field] Map.empty))
       = Inr 3"
    by (simp add: newline_field_def set_property_def csv_defs rowCount_def)
  moreover have "seedValues [newline_field] Map.empty (Id_f newline_field) = Some []"
    by (simp add: newline_field_def set_property_def)
  moreover have "length headers \<noteq> 7" by (simp add: headers_def)
  moreover have "length (filter Visible [newline_field]) = 1" by (simp add: newline_field_def)
  ultimately show ?thesis using parse_newline_xml by simp
qed

text \<open>
  C3. The value cell of a visible field whose id is absent from the value map should be
  the empty string. With the id "constructor" and no own entry for it, the lookup finds
  the member inherited from Object.prototype, calling replace on it throws, and no CSV
  is produced.
\<close>

theorem inherited_member_submit_throws:
  "parse (platform [(constructor_xml, constructor_doc)]) constructor_xml = Inr [constructor_field]
   \<and> formValues (parseXml (platform [(constructor_xml, constructor_doc)])
        (handleFileUpload constructor_xml initialState)) (Id_f constructor_field) = None
   \<and> handleFormSubmit (parseXml (platform [(constructor_xml, constructor_doc)])
        (handleFileUpload constructor_xml initialState)) = Some (Inl TypeError)"
proof -
  have p: "parse (platform [(constructor_xml, constructor_doc)]) constructor_xml
             = Inr [constructor_field]"
    by (simp add: parse_defs dom_defs field_defs constructor_doc_def constructor_xml_def
        constructor_field_def)
  then have st: "parseXml (platform [(constructor_xml, constructor_doc)])
        (handleFileUpload constructor_xml initialState)
      = \<lparr> xmlContent = constructor_xml, formData = Some [constructor_field], error = None,
          formValues = Map.empty \<rparr>"
    by (simp add: parseXml_def handleFileUpload_def initialState_def constructor_field_def)
  have "serialize [constructor_field] Map.empty = Inl TypeError"
    by (simp add: serialize_def valueText_def get_property_def object_prototype_members_def
        constructor_field_def)
  with p st show ?thesis by (simp add: handleFormSubmit_def)
qed

text \<open>
  C6. After a successful parse every visible field that is not display-only should have
  an entry in the value map. A field with the id "__proto__" gets none: the assignment
  runs the setter inherited from Object.prototype, which ignores a string.
\<close>

theorem proto_field_not_seeded:
  "parse (platform [(proto_xml, proto_doc)]) proto_xml = Inr [proto_field]
   \<and> Visible proto_field \<and> \<not> DisplayOnly proto_field
   \<and> formData (parseXml (platform [(proto_xml, proto_doc)])
        (handleFileUpload proto_xml initialState)) = Some [proto_field]
   \<and> dom (formValues (parseXml (platform [(proto_xml, proto_doc)])
        (handleFileUpload proto_xml initialState))) = {}"
proof -
  have p: "parse (platform [(proto_xml, proto_doc)]) proto_xml = Inr [proto_field]"
    by (simp add: parse_defs dom_defs field_defs proto_doc_def proto_xml_def proto_field_def)
  then have "parseXml (platform [(proto_xml, proto_doc)])
        (handleFileUpload proto_xml initialState)
      = \<lparr> xmlContent = proto_xml, formData = Some [proto_field], error = None,
          formValues = Map.empty \<rparr>"
    by (simp add: parseXml_def handleFileUpload_def initialState_def proto_field_def
        set_property_def)
  with p show ?thesis by (simp add: proto_field_def)
qed

end
